theory Spec2Isabelle
  imports Main
begin

section \<open>The two caches\<close>

text \<open>
  The server keeps two instances of the \<^verbatim>\<open>go-cache\<close> key/value store,
  \<^verbatim>\<open>shortCache = cache.New(10*time.Minute, 10*time.Minute)\<close> and
  \<^verbatim>\<open>longCache = cache.New(cache.NoExpiration, 0)\<close>.
  An item holds the stored object and the expiration instant in nanoseconds
  (\<open>0\<close>: the item never expires). Durations and instants are integers
  counting nanoseconds. The rows returned by the spreadsheet API are rows of
  formatted cell texts, so a stored object is a list of strings.

  \<^verbatim>\<open>Set(k, x, d)\<close> replaces the duration \<open>DefaultExpiration\<close> by the
  cache's own default, and stamps the item with \<open>now + d\<close> when \<open>d\<close> is
  positive. \<^verbatim>\<open>Get(k)\<close> finds an item unless the key is absent or the item
  carries a positive expiration instant that lies before the current time;
  it does not change the cache.
\<close>

record item =
  Object :: "string list"
  Expiration :: int

record cache =
  defaultExpiration :: int
  items :: "string \<rightharpoonup> item"

definition NoExpiration :: int where
  "NoExpiration = -1"

definition DefaultExpiration :: int where
  "DefaultExpiration = 0"

definition Minute :: int where
  "Minute = 60 * 1000000000"

definition cacheNew :: "int \<Rightarrow> cache" where
  "cacheNew de = \<lparr>defaultExpiration = de, items = Map.empty\<rparr>"

definition cacheSet :: "int \<Rightarrow> string \<Rightarrow> string list \<Rightarrow> int \<Rightarrow> cache \<Rightarrow> cache" where
  "cacheSet now k x d c =
     (let d' = (if d = DefaultExpiration then defaultExpiration c else d);
          e = (if d' > 0 then now + d' else 0)
      in c\<lparr>items := (items c)(k \<mapsto> \<lparr>Object = x, Expiration = e\<rparr>)\<rparr>)"

definition cacheGet :: "int \<Rightarrow> string \<Rightarrow> cache \<Rightarrow> string list option" where
  "cacheGet now k c =
     (case items c k of
        None \<Rightarrow> None
      | Some it \<Rightarrow>
          if Expiration it > 0 \<and> now > Expiration it then None
          else Some (Object it))"

section \<open>The server, its effects and its errors\<close>

text \<open>
  Besides the two caches the state records, in order, the effects a request
  performs on the outside world: messages passed to \<^verbatim>\<open>logMessage\<close>,
  the two calls to the spreadsheet client, and the messages posted to the SMS
  provider. Plain \<^verbatim>\<open>log.Printf\<close> diagnostics are not recorded.
\<close>

datatype event =
    LogMessage string
  | SheetsNewService
  | SheetsValuesGet
  | PostMessage string string string

record server =
  shortCache :: cache
  longCache :: cache
  events :: "event list"

definition newServer :: server where
  "newServer =
     \<lparr>shortCache = cacheNew (10 * Minute),
      longCache = cacheNew NoExpiration,
      events = []\<rparr>"

datatype error =
    NoNumbersInFallback string
  | SheetEmpty
  | NoRowInSheet string
  | WrongSyntax
  | Upstream string

fun errorText :: "error \<Rightarrow> string" where
  "errorText (NoNumbersInFallback team) = ''No numbers found in fallback cache for team '' @ team"
| "errorText SheetEmpty = ''Sheet appears to be empty :(''"
| "errorText (NoRowInSheet team) = ''No row found in Sheet for team '' @ team"
| "errorText WrongSyntax = ''Wrong comma-separated phone numbers syntax''"
| "errorText (Upstream msg) = msg"

definition logMessage :: "string \<Rightarrow> server \<Rightarrow> server" where
  "logMessage message st = st\<lparr>events := events st @ [LogMessage message]\<rparr>"

section \<open>The directory\<close>

text \<open>
  What the spreadsheet backend answers to one lookup: the client cannot be
  created, the read of the range \<^verbatim>\<open>A2:D\<close> fails, or the read returns
  the rows of the range.
\<close>

datatype directory =
    ServiceError string
  | ReadError string
  | Values "string list list"

definition NewSpreadsheetService :: "directory \<Rightarrow> server \<Rightarrow> (string + directory) \<times> server" where
  "NewSpreadsheetService d st =
     (let st' = st\<lparr>events := events st @ [SheetsNewService]\<rparr>
      in case d of
           ServiceError e \<Rightarrow> (Inl (''Unable to establish Sheets Client: '' @ e), st')
         | _ \<Rightarrow> (Inr d, st'))"

definition ValuesGetDo :: "directory \<Rightarrow> server \<Rightarrow> (string + string list list) \<times> server" where
  "ValuesGetDo d st =
     (let st' = st\<lparr>events := events st @ [SheetsValuesGet]\<rparr>
      in case d of
           Values rows \<Rightarrow> (Inr rows, st')
         | ReadError e \<Rightarrow> (Inl e, st')
         | ServiceError e \<Rightarrow> (Inl e, st'))"

section \<open>Resolving the numbers of a team\<close>

text \<open>
  The loop over the fetched rows: a row with at least one cell is stored in
  the long and in the short cache under its first cell, with the remaining
  cells as the object; when the first cell is the requested team the loop
  returns these remaining cells at once. \<open>None\<close> is the loop running to its
  end.
\<close>

fun scanRows :: "int \<Rightarrow> string \<Rightarrow> string list list \<Rightarrow> server \<Rightarrow> string list option \<times> server" where
  "scanRows now team [] st = (None, st)"
| "scanRows now team (row # rows) st =
     (case row of
        [] \<Rightarrow> scanRows now team rows st
      | k # numbers \<Rightarrow>
          (let st1 = st\<lparr>longCache := cacheSet now k numbers DefaultExpiration (longCache st)\<rparr>;
               st2 = st1\<lparr>shortCache := cacheSet now k numbers DefaultExpiration (shortCache st1)\<rparr>
           in if k = team then (Some numbers, st2)
              else scanRows now team rows st2))"

text \<open>
  The two error branches of \<^verbatim>\<open>getTeamNumbers\<close> run the same code after
  their log message: the long cache is read, and its miss is the error "No
  numbers found in fallback cache". It is written once, as \<open>fallback\<close>.
  A call reads the clock once: \<open>now\<close> is the instant of all the cache
  operations of the call.
\<close>

definition fallback :: "int \<Rightarrow> string \<Rightarrow> server \<Rightarrow> (error + string list) \<times> server" where
  "fallback now team st =
     (case cacheGet now team (longCache st) of
        Some phoneNumbers \<Rightarrow> (Inr phoneNumbers, st)
      | None \<Rightarrow> (Inl (NoNumbersInFallback team), st))"

definition getTeamNumbers :: "directory \<Rightarrow> int \<Rightarrow> string \<Rightarrow> server \<Rightarrow> (error + string list) \<times> server" where
  "getTeamNumbers d now team st =
     (case cacheGet now team (shortCache st) of
        Some phoneNumbers \<Rightarrow> (Inr phoneNumbers, st)
      | None \<Rightarrow>
          (case NewSpreadsheetService d st of
             (Inl err, st1) \<Rightarrow>
               fallback now team
                 (logMessage (''Cannot create Sheets service, reading from fallback cache - '' @ err) st1)
           | (Inr sheets, st1) \<Rightarrow>
               (case ValuesGetDo sheets st1 of
                  (Inl err, st2) \<Rightarrow>
                    fallback now team
                      (logMessage (''Cannot read Sheet, reading from fallback cache - '' @ err) st2)
                | (Inr rows, st2) \<Rightarrow>
                    if length rows = 0 then (Inl SheetEmpty, st2)
                    else (case scanRows now team rows st2 of
                            (Some numbers, st3) \<Rightarrow> (Inr numbers, st3)
                          | (None, st3) \<Rightarrow> (Inl (NoRowInSheet team), st3)))))"

section \<open>Recipients given by a label\<close>

text \<open>
  Regular expressions as far as the pattern of \<^verbatim>\<open>getPhonesFromLabel\<close>
  needs them: character classes, concatenation, alternation, iteration and
  bounded repetition \<open>r{m,n}\<close>. A string is matched by taking the
  derivative of the expression by each character in turn. The pattern is
  anchored at both ends (\<^verbatim>\<open>^...$\<close>, where \<^verbatim>\<open>$\<close> is the end of the
  text), so \<^verbatim>\<open>regexp.MatchString\<close> holds exactly when the whole string
  is matched by the expression between the anchors; \<^verbatim>\<open>\\d\<close> is the
  class of the ten ASCII digits.
\<close>

datatype rexp =
    Null
  | Empty
  | Class "char list"
  | Seq rexp rexp
  | Alt rexp rexp
  | Star rexp

fun nullable :: "rexp \<Rightarrow> bool" where
  "nullable Null = False"
| "nullable Empty = True"
| "nullable (Class cs) = False"
| "nullable (Seq r s) = (nullable r \<and> nullable s)"
| "nullable (Alt r s) = (nullable r \<or> nullable s)"
| "nullable (Star r) = True"

fun deriv :: "char \<Rightarrow> rexp \<Rightarrow> rexp" where
  "deriv c Null = Null"
| "deriv c Empty = Null"
| "deriv c (Class cs) = (if c \<in> set cs then Empty else Null)"
| "deriv c (Seq r s) =
     (if nullable r then Alt (Seq (deriv c r) s) (deriv c s) else Seq (deriv c r) s)"
| "deriv c (Alt r s) = Alt (deriv c r) (deriv c s)"
| "deriv c (Star r) = Seq (deriv c r) (Star r)"

fun matches :: "rexp \<Rightarrow> string \<Rightarrow> bool" where
  "matches r [] = nullable r"
| "matches r (c # cs) = matches (deriv c r) cs"

fun exactly :: "nat \<Rightarrow> rexp \<Rightarrow> rexp" where
  "exactly 0 r = Empty"
| "exactly (Suc n) r = Seq r (exactly n r)"

fun atMost :: "nat \<Rightarrow> rexp \<Rightarrow> rexp" where
  "atMost 0 r = Empty"
| "atMost (Suc n) r = Alt Empty (Seq r (atMost n r))"

definition Repeat :: "rexp \<Rightarrow> nat \<Rightarrow> nat \<Rightarrow> rexp" where
  "Repeat r m n = Seq (exactly m r) (atMost (n - m) r)"

definition digit :: rexp where
  "digit = Class ''0123456789''"

definition phone :: rexp where
  "phone = Seq (Class ''123456789'') (Repeat digit 1 14)"

definition phonesPattern :: rexp where
  "phonesPattern = Seq phone (Star (Seq (Class '','') phone))"

text \<open>
  \<^verbatim>\<open>strings.Split(s, ",")\<close>: the pieces of \<open>s\<close> between the commas; a
  string without a comma, the empty one too, is its only piece.
\<close>

fun Split :: "string \<Rightarrow> char \<Rightarrow> string list" where
  "Split [] sep = [[]]"
| "Split (c # cs) sep =
     (if c = sep then [] # Split cs sep
      else (case Split cs sep of
              [] \<Rightarrow> [[c]]
            | p # ps \<Rightarrow> (c # p) # ps))"

text \<open>
  The two results of \<^verbatim>\<open>getPhonesFromLabel\<close> are kept apart, as the caller
  tests them one after the other: the slice (\<open>None\<close> is \<^verbatim>\<open>nil\<close>) and
  the error.
\<close>

definition getPhonesFromLabel :: "string \<Rightarrow> string list option \<times> error option" where
  "getPhonesFromLabel phoneNumbers =
     (if phoneNumbers = [] then (None, None)
      else if \<not> matches phonesPattern phoneNumbers then (None, Some WrongSyntax)
      else (Some (Split phoneNumbers (CHR '','')), None))"

section \<open>The webhook\<close>

text \<open>
  \<^verbatim>\<open>sendSms\<close> posts one form with the fields \<^verbatim>\<open>To\<close>, \<^verbatim>\<open>From\<close> and
  \<^verbatim>\<open>Body\<close> to the provider. The provider's answer is the request failing,
  or a response with its status code, status line and body, and the error of
  decoding that body as JSON, if any.
\<close>

record TwilioCredentials =
  AccountSid :: string
  AuthSid :: string
  AuthToken :: string
  FromNumber :: string

datatype twilioReply =
    DoError string
  | HttpResponse int string string "string option"

definition sendSms ::
  "TwilioCredentials \<Rightarrow> (string \<Rightarrow> string \<Rightarrow> twilioReply) \<Rightarrow> string \<Rightarrow> string \<Rightarrow> server
     \<Rightarrow> error option \<times> server" where
  "sendSms twilio api recipient message st =
     (let st' = st\<lparr>events := events st @ [PostMessage recipient (FromNumber twilio) message]\<rparr>
      in case api recipient message of
           DoError e \<Rightarrow> (Some (Upstream e), st')
         | HttpResponse statusCode status body decodeError \<Rightarrow>
             if statusCode < 200 \<or> statusCode \<ge> 300
             then (Some (Upstream (''Non-200 response from twilio API: '' @ status @ '' - '' @ body)), st')
             else (case decodeError of
                     Some e \<Rightarrow> (Some (Upstream e), st')
                   | None \<Rightarrow> (None, st')))"

text \<open>
  An alert of the batch, and what the backends answer while the alert at a
  given position of the batch is handled. Indexing a Go map with a missing
  key gives the empty string. A response is the status code with the message
  that \<^verbatim>\<open>asJson\<close> encodes.
\<close>

record alert =
  Status :: string
  Labels :: "string \<rightharpoonup> string"
  Annotations :: "string \<rightharpoonup> string"

definition index :: "(string \<rightharpoonup> string) \<Rightarrow> string \<Rightarrow> string" where
  "index m k = (case m k of None \<Rightarrow> [] | Some v \<Rightarrow> v)"

record backends =
  twilio :: TwilioCredentials
  twilioApi :: "string \<Rightarrow> string \<Rightarrow> twilioReply"
  directoryAt :: "nat \<Rightarrow> directory"
  clockAt :: "nat \<Rightarrow> int"

type_synonym response = "nat \<times> string"

text \<open>
  The body of the loop over the alerts, in its two stages: the recipients are
  determined (from the label, or else from the team; lines 124 to 138 of
  \<^verbatim>\<open>main.go\<close>), then one message is sent to each (lines 140 to 147), to
  the recipient formatted by \<^verbatim>\<open>fmt.Sprintf("+%v", recipient)\<close>.
  \<open>Inl\<close> and \<open>Some\<close> carry the response of a request that ends there.
\<close>

definition determineRecipients ::
  "directory \<Rightarrow> int \<Rightarrow> alert \<Rightarrow> server \<Rightarrow> (response + string list) \<times> server" where
  "determineRecipients d now a st =
     (let team = index (Labels a) ''team'';
          (recipients, err) = getPhonesFromLabel (index (Labels a) ''phone_numbers'');
          st1 = (case err of
                   Some e \<Rightarrow>
                     logMessage (''Cannot use label-provided phone numbers ''
                       @ index (Labels a) ''phone_numbers'' @ '': '' @ errorText e) st
                 | None \<Rightarrow> st)
      in case recipients of
           Some rs \<Rightarrow> (Inr rs, st1)
         | None \<Rightarrow>
             (case getTeamNumbers d now team st1 of
                (Inl e, st2) \<Rightarrow> (Inl (500, errorText e), logMessage (errorText e) st2)
              | (Inr rs, st2) \<Rightarrow> (Inr rs, st2)))"

fun sendAll ::
  "TwilioCredentials \<Rightarrow> (string \<Rightarrow> string \<Rightarrow> twilioReply) \<Rightarrow> string list \<Rightarrow> string \<Rightarrow> server
     \<Rightarrow> response option \<times> server" where
  "sendAll tw api [] message st = (None, st)"
| "sendAll tw api (recipient # rest) message st =
     (case sendSms tw api (''+'' @ recipient) message st of
        (Some e, st1) \<Rightarrow> (Some (500, errorText e), logMessage (errorText e) st1)
      | (None, st1) \<Rightarrow> sendAll tw api rest message st1)"

definition handleAlert :: "backends \<Rightarrow> nat \<Rightarrow> alert \<Rightarrow> server \<Rightarrow> response option \<times> server" where
  "handleAlert b i a st =
     (let message = Status a @ '': '' @ index (Annotations a) ''summary''
      in case determineRecipients (directoryAt b i) (clockAt b i) a st of
           (Inl resp, st1) \<Rightarrow> (Some resp, st1)
         | (Inr recipients, st1) \<Rightarrow> sendAll (twilio b) (twilioApi b) recipients message st1)"

fun alertsLoop :: "backends \<Rightarrow> nat \<Rightarrow> alert list \<Rightarrow> server \<Rightarrow> response option \<times> server" where
  "alertsLoop b i [] st = (None, st)"
| "alertsLoop b i (a # rest) st =
     (case handleAlert b i a st of
        (Some resp, st1) \<Rightarrow> (Some resp, st1)
      | (None, st1) \<Rightarrow> alertsLoop b (Suc i) rest st1)"

text \<open>
  A request is its method and its body, decoded: the alerts, or the error of
  the JSON decoder.
\<close>

definition webhook :: "backends \<Rightarrow> string \<Rightarrow> (string + alert list) \<Rightarrow> server \<Rightarrow> response \<times> server" where
  "webhook b method body st =
     (if method \<noteq> ''POST'' then ((405, ''unsupported HTTP method''), st)
      else case body of
             Inl err \<Rightarrow> ((400, err), logMessage (''Error parsing alerts content: '' @ err) st)
           | Inr alerts \<Rightarrow>
               (case alertsLoop b 0 alerts st of
                  (Some resp, st1) \<Rightarrow> (resp, st1)
                | (None, st1) \<Rightarrow> ((200, ''success''), st1)))"

text \<open>The recipients handed to the SMS provider, in the order of the posts.\<close>

fun postedTo :: "event list \<Rightarrow> string list" where
  "postedTo [] = []"
| "postedTo (PostMessage recipient sender message # evs) = recipient # postedTo evs"
| "postedTo (e # evs) = postedTo evs"

section \<open>Auxiliary notions for the statements\<close>



text \<open>
  The long cache is created with \<^verbatim>\<open>cache.NoExpiration\<close> as its default
  and is only written with the default duration, so none of its items
  carries an expiration instant. This invariant holds for the new server and
  is kept by every request.
\<close>

definition neverExpires :: "cache \<Rightarrow> bool" where
  "neverExpires c =
     (defaultExpiration c = NoExpiration \<and> (\<forall>k it. items c k = Some it \<longrightarrow> Expiration it = 0))"

section \<open>Example states and requests\<close>

text \<open>
  A server that has resolved team \<open>infra\<close> once, at time \<open>0\<close>, from a sheet of
  two rows; the instant eleven minutes later, when its short-cache entries
  have expired; an SMS provider that accepts every message and one that
  refuses every message; and three alerts
  for team \<open>infra\<close>: without the label \<^verbatim>\<open>phone_numbers\<close>, with a
  well-formed one, and with a malformed one.
\<close>

definition sheetA :: "string list list" where
  "sheetA = [[''red'', ''+33611111111''], [''infra'', ''+33333333333'', ''+33666666666'']]"

definition warmServer :: server where
  "warmServer = snd (getTeamNumbers (Values sheetA) 0 ''infra'' newServer)"

definition later :: int where
  "later = 11 * Minute"

definition twilioOk :: "string \<Rightarrow> string \<Rightarrow> twilioReply" where
  "twilioOk recipient message = HttpResponse 201 ''201 Created'' ''{\"sid\": \"SM1\"}'' None"

definition backendsA :: backends where
  "backendsA =
     \<lparr>twilio = \<lparr>AccountSid = ''AC0'', AuthSid = ''SK0'', AuthToken = ''token'', FromNumber = ''+15005550006''\<rparr>,
      twilioApi = twilioOk,
      directoryAt = (\<lambda>i. Values sheetA),
      clockAt = (\<lambda>i. 0)\<rparr>"

definition alertTeam :: alert where
  "alertTeam =
     \<lparr>Status = ''firing'',
      Labels = [''team'' \<mapsto> ''infra''],
      Annotations = [''summary'' \<mapsto> ''disk full'']\<rparr>"

definition alertLabel :: alert where
  "alertLabel =
     \<lparr>Status = ''firing'',
      Labels = [''team'' \<mapsto> ''infra'', ''phone_numbers'' \<mapsto> ''33611111111,33622222222''],
      Annotations = [''summary'' \<mapsto> ''disk full'']\<rparr>"

definition alertMalformed :: alert where
  "alertMalformed =
     \<lparr>Status = ''firing'',
      Labels = [''team'' \<mapsto> ''infra'', ''phone_numbers'' \<mapsto> ''abc''],
      Annotations = [''summary'' \<mapsto> ''disk full'']\<rparr>"

definition twilioRefuse :: "string \<Rightarrow> string \<Rightarrow> twilioReply" where
  "twilioRefuse recipient message = DoError ''refused''"

definition backendsRefuse :: backends where
  "backendsRefuse = backendsA\<lparr>twilioApi := twilioRefuse\<rparr>"

section \<open>Properties of the caches and of the scan\<close>

lemmas resolver_defs =
  getTeamNumbers_def fallback_def NewSpreadsheetService_def ValuesGetDo_def logMessage_def
  cacheGet_def cacheSet_def cacheNew_def newServer_def warmServer_def sheetA_def later_def
  DefaultExpiration_def NoExpiration_def Minute_def Let_def

lemma cacheGet_cacheSet:
  "cacheGet now k' (cacheSet now k x d c) = (if k' = k then Some x else cacheGet now k' c)"
  by (auto simp: cacheGet_def cacheSet_def Let_def)

lemma scanRows_events: "events (snd (scanRows now team rows st)) = events st"
  by (induction rows arbitrary: st) (auto simp: Let_def split: list.splits)

lemma scanRows_append:
  "\<forall>r\<in>set pre. take 1 r \<noteq> [team] \<Longrightarrow>
   scanRows now team (pre @ rest) st = scanRows now team rest (snd (scanRows now team pre st))"
  by (induction pre arbitrary: st) (auto simp: Let_def split: list.splits)

lemma scanRows_no_match:
  "\<forall>r\<in>set rows. take 1 r \<noteq> [team] \<Longrightarrow> fst (scanRows now team rows st) = None"
  by (induction rows arbitrary: st) (auto simp: Let_def split: list.splits)

lemma scanRows_agree:
  "cacheGet now k (shortCache st) = cacheGet now k (longCache st) \<Longrightarrow>
   cacheGet now k (shortCache (snd (scanRows now team rows st)))
     = cacheGet now k (longCache (snd (scanRows now team rows st)))"
  by (induction rows arbitrary: st) (auto simp: Let_def cacheGet_cacheSet split: list.splits)

lemma scanRows_keeps:
  "cacheGet now k (shortCache st) \<noteq> None \<Longrightarrow>
   cacheGet now k (shortCache (snd (scanRows now team rows st))) \<noteq> None"
  by (induction rows arbitrary: st) (auto simp: Let_def cacheGet_cacheSet split: list.splits)

lemma items_cacheSet_other:
  "k' \<noteq> k \<Longrightarrow> items (cacheSet now k x d c) k' = items c k'"
  by (simp add: cacheSet_def Let_def)

lemma scanRows_untouched:
  "\<forall>r\<in>set rows. take 1 r \<noteq> [k] \<Longrightarrow>
   items (shortCache (snd (scanRows now team rows st))) k = items (shortCache st) k \<and>
   items (longCache (snd (scanRows now team rows st))) k = items (longCache st) k"
  by (induction rows arbitrary: st) (auto simp: Let_def items_cacheSet_other split: list.splits)

lemma cacheGet_cong_items: "items c k = items c' k \<Longrightarrow> cacheGet now k c = cacheGet now k c'"
  by (simp add: cacheGet_def)

lemma scanRows_row_written:
  assumes reached: "\<forall>r\<in>set pre. take 1 r \<noteq> [team]"
    and st'_def: "st' = snd (scanRows now team (pre @ (k # ns) # post) st)"
  shows "cacheGet now k (shortCache st') = cacheGet now k (longCache st')"
    and "cacheGet now k (shortCache st') \<noteq> None"
    and "k = team \<or> (\<forall>r\<in>set post. take 1 r \<noteq> [k]) \<Longrightarrow> cacheGet now k (shortCache st') = Some ns"
proof -
  define s0 where "s0 = snd (scanRows now team pre st)"
  define s1 where "s1 = s0\<lparr>longCache := cacheSet now k ns DefaultExpiration (longCache s0)\<rparr>"
  define s2 where "s2 = s1\<lparr>shortCache := cacheSet now k ns DefaultExpiration (shortCache s1)\<rparr>"
  have st': "st' = (if k = team then s2 else snd (scanRows now team post s2))"
    unfolding st'_def scanRows_append[OF reached] s0_def s1_def s2_def
    by (simp add: Let_def)
  have short2: "cacheGet now k (shortCache s2) = Some ns"
    by (simp add: s2_def cacheGet_cacheSet)
  have long2: "cacheGet now k (longCache s2) = Some ns"
    by (simp add: s2_def s1_def cacheGet_cacheSet)
  show "cacheGet now k (shortCache st') = cacheGet now k (longCache st')"
  proof (cases "k = team")
    case True
    then have "st' = s2" by (simp add: st')
    then show ?thesis using short2 long2 by simp
  next
    case False
    then have "st' = snd (scanRows now team post s2)" by (simp add: st')
    then show ?thesis using scanRows_agree[of now k s2 team post] short2 long2 by simp
  qed
  show "cacheGet now k (shortCache st') \<noteq> None"
  proof (cases "k = team")
    case True
    then have "st' = s2" by (simp add: st')
    then show ?thesis using short2 by simp
  next
    case False
    then have "st' = snd (scanRows now team post s2)" by (simp add: st')
    then show ?thesis using scanRows_keeps[of now k s2 team post] short2 by simp
  qed
  show "cacheGet now k (shortCache st') = Some ns"
    if "k = team \<or> (\<forall>r\<in>set post. take 1 r \<noteq> [k])"
  proof (cases "k = team")
    case True
    then have "st' = s2" by (simp add: st')
    then show ?thesis using short2 by simp
  next
    case False
    with that have "\<forall>r\<in>set post. take 1 r \<noteq> [k]" by simp
    from scanRows_untouched[OF this, of now team s2]
    have "cacheGet now k (shortCache (snd (scanRows now team post s2))) = cacheGet now k (shortCache s2)"
      by (intro cacheGet_cong_items) simp
    moreover from False have "st' = snd (scanRows now team post s2)" by (simp add: st')
    ultimately show ?thesis using short2 by simp
  qed
qed

lemma getTeamNumbers_fetch:
  assumes "cacheGet now team (shortCache st) = None" and "rows \<noteq> []"
  shows "getTeamNumbers (Values rows) now team st =
           (case scanRows now team rows (st\<lparr>events := events st @ [SheetsNewService, SheetsValuesGet]\<rparr>) of
              (Some numbers, st3) \<Rightarrow> (Inr numbers, st3)
            | (None, st3) \<Rightarrow> (Inl (NoRowInSheet team), st3))"
  using assms by (simp add: getTeamNumbers_def NewSpreadsheetService_def ValuesGetDo_def Let_def)

lemma getTeamNumbers_fetch_state:
  assumes "cacheGet now team (shortCache st) = None" and "rows \<noteq> []"
  shows "snd (getTeamNumbers (Values rows) now team st) =
           snd (scanRows now team rows (st\<lparr>events := events st @ [SheetsNewService, SheetsValuesGet]\<rparr>))"
  by (simp add: getTeamNumbers_fetch[OF assms] split: prod.splits option.splits)

lemma getTeamNumbers_fetch_fst:
  assumes "cacheGet now team (shortCache st) = None" and "rows \<noteq> []"
  shows "fst (getTeamNumbers (Values rows) now team st) =
           (case fst (scanRows now team rows (st\<lparr>events := events st @ [SheetsNewService, SheetsValuesGet]\<rparr>)) of
              Some numbers \<Rightarrow> Inr numbers
            | None \<Rightarrow> Inl (NoRowInSheet team))"
  by (cases "scanRows now team rows (st\<lparr>events := events st @ [SheetsNewService, SheetsValuesGet]\<rparr>)")
     (simp add: getTeamNumbers_fetch[OF assms] split: option.splits)

lemma scanRows_filter:
  "scanRows now team rows st = scanRows now team (filter (\<lambda>row. row \<noteq> []) rows) st"
  by (induction rows arbitrary: st) (auto simp: Let_def split: list.splits)

lemma neverExpires_cacheGet:
  "neverExpires c \<Longrightarrow> cacheGet now k c = map_option Object (items c k)"
  by (auto simp: neverExpires_def cacheGet_def split: option.splits)

lemma neverExpires_cacheNew: "neverExpires (cacheNew NoExpiration)"
  by (simp add: neverExpires_def cacheNew_def)

lemma neverExpires_cacheSet:
  "neverExpires c \<Longrightarrow> neverExpires (cacheSet now k x DefaultExpiration c)"
  by (auto simp: neverExpires_def cacheSet_def Let_def DefaultExpiration_def NoExpiration_def)

lemma neverExpires_scanRows:
  "neverExpires (longCache st) \<Longrightarrow> neverExpires (longCache (snd (scanRows now team rows st)))"
  by (induction rows arbitrary: st) (auto simp: Let_def neverExpires_cacheSet split: list.splits)

lemma getTeamNumbers_failure:
  assumes "cacheGet now team (shortCache st) = None" and "d = ServiceError e \<or> d = ReadError e"
  shows "fst (getTeamNumbers d now team st) =
           (case cacheGet now team (longCache st) of
              Some v \<Rightarrow> Inr v | None \<Rightarrow> Inl (NoNumbersInFallback team))"
    and "shortCache (snd (getTeamNumbers d now team st)) = shortCache st"
    and "longCache (snd (getTeamNumbers d now team st)) = longCache st"
  using assms
  by (auto simp: getTeamNumbers_def fallback_def NewSpreadsheetService_def ValuesGetDo_def
        logMessage_def Let_def split: option.splits)

lemma neverExpires_getTeamNumbers:
  assumes "neverExpires (longCache st)"
  shows "neverExpires (longCache (snd (getTeamNumbers d now team st)))"
proof (cases "cacheGet now team (shortCache st)")
  case (Some v)
  then show ?thesis using assms by (simp add: getTeamNumbers_def)
next
  case None
  show ?thesis
  proof (cases d)
    case (ServiceError e)
    then show ?thesis using getTeamNumbers_failure(3)[OF None, of d e] assms by simp
  next
    case (ReadError e)
    then show ?thesis using getTeamNumbers_failure(3)[OF None, of d e] assms by simp
  next
    case (Values rows)
    show ?thesis
    proof (cases "rows = []")
      case True
      then show ?thesis using None Values assms
        by (simp add: getTeamNumbers_def NewSpreadsheetService_def ValuesGetDo_def Let_def)
    next
      case False
      then show ?thesis
        using neverExpires_scanRows[of "st\<lparr>events := events st @ [SheetsNewService, SheetsValuesGet]\<rparr>" now team rows]
          assms Values
        by (simp add: getTeamNumbers_fetch_state[OF None False])
    qed
  qed
qed

lemma neverExpires_warmServer: "neverExpires (longCache warmServer)"
  unfolding warmServer_def
  by (rule neverExpires_getTeamNumbers) (simp add: newServer_def neverExpires_cacheNew)

lemma items_long_warm_infra:
  "items (longCache warmServer) ''infra'' = Some \<lparr>Object = [''+33333333333'', ''+33666666666''], Expiration = 0\<rparr>"
  by (simp add: resolver_defs)

lemma items_long_warm_blue:
  "items (longCache warmServer) ''blue'' = None"
  by (simp add: resolver_defs)

lemma short_warm_later: "cacheGet later ''infra'' (shortCache warmServer) = None"
  by (simp add: resolver_defs)

lemma short_warm_later_blue: "cacheGet later ''blue'' (shortCache warmServer) = None"
  by (simp add: resolver_defs)

section \<open>Properties of the label pattern and of the posts\<close>

















lemma scanRows_posted: "postedTo (events (snd (scanRows now team rows st))) = postedTo (events st)"
  by (simp add: scanRows_events)



lemma exactly_numeral: "exactly (numeral n) r = Seq r (exactly (pred_numeral n) r)"
  by (simp add: numeral_eq_Suc)

lemma atMost_numeral: "atMost (numeral n) r = Alt Empty (Seq r (atMost (pred_numeral n) r))"
  by (simp add: numeral_eq_Suc)

lemmas webhook_defs =
  determineRecipients_def handleAlert_def sendSms_def getPhonesFromLabel_def index_def
  phonesPattern_def phone_def digit_def Repeat_def exactly_numeral atMost_numeral Let_def
  twilioOk_def backendsA_def alertTeam_def alertLabel_def alertMalformed_def

lemma sendSms_split:
  "sendSms tw api r m st
     = (fst (sendSms tw api r m st), st\<lparr>events := events st @ [PostMessage r (FromNumber tw) m]\<rparr>)"
  by (simp add: sendSms_def Let_def split: twilioReply.splits option.splits)

lemma sendSms_fst_state: "fst (sendSms tw api r m st) = fst (sendSms tw api r m st')"
  by (simp add: sendSms_def Let_def split: twilioReply.splits option.splits)

lemma sendAll_all_ok:
  "\<forall>r\<in>set rs. fst (sendSms tw api (''+'' @ r) m st) = None \<Longrightarrow>
   sendAll tw api rs m st
     = (None, st\<lparr>events := events st @ map (\<lambda>r. PostMessage (''+'' @ r) (FromNumber tw) m) rs\<rparr>)"
proof (induction rs arbitrary: st)
  case Nil
  then show ?case by simp
next
  case (Cons r rs)
  define st1 where "st1 = st\<lparr>events := events st @ [PostMessage (''+'' @ r) (FromNumber tw) m]\<rparr>"
  from Cons.prems have ok: "fst (sendSms tw api (''+'' @ r) m st) = None" by simp
  have s: "sendSms tw api (''+'' @ r) m st = (None, st1)"
    using sendSms_split[of tw api "''+'' @ r" m st] ok by (simp add: st1_def)
  have "\<forall>q\<in>set rs. fst (sendSms tw api (''+'' @ q) m st1) = None"
    using Cons.prems sendSms_fst_state[of tw api _ m st1 st] by simp
  from Cons.IH[OF this] s show ?case by (simp add: st1_def)
qed

lemma sendAll_first_failure:
  "\<forall>q\<in>set pre. fst (sendSms tw api (''+'' @ q) m st) = None \<Longrightarrow>
   fst (sendSms tw api (''+'' @ r) m st) = Some e \<Longrightarrow>
   sendAll tw api (pre @ r # post) m st
     = (Some (500, errorText e),
        st\<lparr>events := events st @ map (\<lambda>r. PostMessage (''+'' @ r) (FromNumber tw) m) (pre @ [r])
                       @ [LogMessage (errorText e)]\<rparr>)"
proof (induction pre arbitrary: st)
  case Nil
  define st1 where "st1 = st\<lparr>events := events st @ [PostMessage (''+'' @ r) (FromNumber tw) m]\<rparr>"
  have s: "sendSms tw api (''+'' @ r) m st = (Some e, st1)"
    using sendSms_split[of tw api "''+'' @ r" m st] Nil.prems(2) by (simp add: st1_def)
  then show ?case by (simp add: st1_def logMessage_def)
next
  case (Cons q pre)
  define st1 where "st1 = st\<lparr>events := events st @ [PostMessage (''+'' @ q) (FromNumber tw) m]\<rparr>"
  from Cons.prems(1) have ok: "fst (sendSms tw api (''+'' @ q) m st) = None" by simp
  have s: "sendSms tw api (''+'' @ q) m st = (None, st1)"
    using sendSms_split[of tw api "''+'' @ q" m st] ok by (simp add: st1_def)
  have a: "\<forall>p\<in>set pre. fst (sendSms tw api (''+'' @ p) m st1) = None"
    using Cons.prems(1) sendSms_fst_state[of tw api _ m st1 st] by simp
  have b: "fst (sendSms tw api (''+'' @ r) m st1) = Some e"
    using Cons.prems(2) sendSms_fst_state[of tw api "''+'' @ r" m st1 st] by simp
  from Cons.IH[OF a b] s show ?case by (simp add: st1_def)
qed

lemma sendAll_abort_iff:
  "fst (sendAll tw api rs m st) \<noteq> None \<longleftrightarrow>
   (\<exists>r\<in>set rs. fst (sendSms tw api (''+'' @ r) m st) \<noteq> None)"
proof (induction rs arbitrary: st)
  case Nil
  then show ?case by simp
next
  case (Cons r rs)
  obtain err st1 where s: "sendSms tw api (''+'' @ r) m st = (err, st1)"
    by (cases "sendSms tw api (''+'' @ r) m st")
  show ?case
  proof (cases err)
    case (Some e)
    with s show ?thesis by simp
  next
    case None
    have "(\<exists>q\<in>set rs. fst (sendSms tw api (''+'' @ q) m st1) \<noteq> None)
        \<longleftrightarrow> (\<exists>q\<in>set rs. fst (sendSms tw api (''+'' @ q) m st) \<noteq> None)"
      using sendSms_fst_state[of tw api _ m st1 st] by simp
    with None s Cons.IH[of st1] show ?thesis by simp
  qed
qed

section \<open>The long cache never expires\<close>

lemma sendSms_longCache: "longCache (snd (sendSms tw api recipient message st)) = longCache st"
  by (simp add: sendSms_def Let_def split: twilioReply.splits option.splits)

lemma sendAll_longCache: "longCache (snd (sendAll tw api rs message st)) = longCache st"
proof (induction rs arbitrary: st)
  case Nil
  then show ?case by simp
next
  case (Cons r rs)
  obtain err st1 where s: "sendSms tw api (''+'' @ r) message st = (err, st1)"
    by (cases "sendSms tw api (''+'' @ r) message st")
  with sendSms_longCache[of tw api "''+'' @ r" message st] have l: "longCache st1 = longCache st"
    by simp
  show ?case
  proof (cases err)
    case None
    with s l Cons.IH[of st1] show ?thesis by simp
  next
    case (Some e)
    with s l show ?thesis by (simp add: logMessage_def)
  qed
qed

lemma neverExpires_logMessage:
  "neverExpires (longCache (logMessage m st)) = neverExpires (longCache st)"
  by (simp add: logMessage_def)

lemma neverExpires_determineRecipients:
  assumes "neverExpires (longCache st)"
  shows "neverExpires (longCache (snd (determineRecipients d now a st)))"
proof -
  obtain rs err where g: "getPhonesFromLabel (index (Labels a) ''phone_numbers'') = (rs, err)"
    by (cases "getPhonesFromLabel (index (Labels a) ''phone_numbers'')")
  define st1 where "st1 = (case err of
      Some e \<Rightarrow> logMessage (''Cannot use label-provided phone numbers ''
                   @ index (Labels a) ''phone_numbers'' @ '': '' @ errorText e) st
    | None \<Rightarrow> st)"
  have n1: "neverExpires (longCache st1)"
    using assms by (simp add: st1_def neverExpires_logMessage split: option.splits)
  show ?thesis
  proof (cases rs)
    case (Some x)
    with g n1 show ?thesis by (simp add: determineRecipients_def st1_def)
  next
    case None
    obtain res st2 where t: "getTeamNumbers d now (index (Labels a) ''team'') st1 = (res, st2)"
      by (cases "getTeamNumbers d now (index (Labels a) ''team'') st1")
    from neverExpires_getTeamNumbers[OF n1, of d now "index (Labels a) ''team''"] t
    have "neverExpires (longCache st2)" by simp
    with None g t show ?thesis
      by (cases res) (simp_all add: determineRecipients_def st1_def[symmetric] neverExpires_logMessage)
  qed
qed

lemma neverExpires_handleAlert:
  assumes "neverExpires (longCache st)"
  shows "neverExpires (longCache (snd (handleAlert b i a st)))"
proof -
  obtain res st1 where d: "determineRecipients (directoryAt b i) (clockAt b i) a st = (res, st1)"
    by (cases "determineRecipients (directoryAt b i) (clockAt b i) a st")
  from neverExpires_determineRecipients[OF assms, of "directoryAt b i" "clockAt b i" a] d
  have "neverExpires (longCache st1)" by simp
  with d show ?thesis
    by (cases res) (simp_all add: handleAlert_def sendAll_longCache)
qed

lemma neverExpires_alertsLoop:
  "neverExpires (longCache st) \<Longrightarrow> neverExpires (longCache (snd (alertsLoop b i alerts st)))"
proof (induction alerts arbitrary: i st)
  case Nil
  then show ?case by simp
next
  case (Cons a alerts)
  obtain resp st1 where h: "handleAlert b i a st = (resp, st1)"
    by (cases "handleAlert b i a st")
  from neverExpires_handleAlert[OF Cons.prems, of b i a] h
  have n: "neverExpires (longCache st1)" by simp
  show ?case
  proof (cases resp)
    case None
    with h Cons.IH[OF n, of "Suc i"] show ?thesis by simp
  next
    case (Some r)
    with h n show ?thesis by simp
  qed
qed

lemma neverExpires_webhook:
  assumes "neverExpires (longCache st)"
  shows "neverExpires (longCache (snd (webhook b method body st)))"
proof (cases "method = ''POST''")
  case False
  with assms show ?thesis by (simp add: webhook_def)
next
  case True
  show ?thesis
  proof (cases body)
    case (Inl err)
    with True assms show ?thesis by (simp add: webhook_def neverExpires_logMessage)
  next
    case (Inr alerts)
    obtain resp st1 where l: "alertsLoop b 0 alerts st = (resp, st1)"
      by (cases "alertsLoop b 0 alerts st")
    from neverExpires_alertsLoop[OF assms, of b 0 alerts] l
    have "neverExpires (longCache st1)" by simp
    with True Inr l show ?thesis by (cases resp) (simp_all add: webhook_def)
  qed
qed

lemma neverExpires_newServer: "neverExpires (longCache newServer)"
  by (simp add: newServer_def neverExpires_cacheNew)

section \<open>The short-cache hit\<close>

text \<open>
  C3. A team with a non-expired entry in the short cache is resolved to the
  recipients of that entry; the directory client is not invoked (no event is
  added) and neither cache changes: the server state is returned as it was,
  whatever the directory would have answered.
\<close>

theorem short_cache_hit:
  assumes "items (shortCache st) team = Some it"
    and "\<not> (Expiration it > 0 \<and> now > Expiration it)"
  shows "getTeamNumbers d now team st = (Inr (Object it), st)"
  using assms by (auto simp: getTeamNumbers_def cacheGet_def)

theorem short_cache_hit_witness:
  "items (shortCache warmServer) ''red'' = Some \<lparr>Object = [''+33611111111''], Expiration = 600000000000\<rparr>
   \<and> \<not> (Expiration \<lparr>Object = [''+33611111111''], Expiration = 600000000000\<rparr> > 0
          \<and> 5 > Expiration \<lparr>Object = [''+33611111111''], Expiration = 600000000000\<rparr>)
   \<and> getTeamNumbers (ServiceError ''down'') 5 ''red'' warmServer = (Inr [''+33611111111''], warmServer)"
proof -
  have h: "items (shortCache warmServer) ''red''
             = Some \<lparr>Object = [''+33611111111''], Expiration = 600000000000\<rparr>"
    by (simp add: resolver_defs)
  show ?thesis
    using h short_cache_hit [OF h, of 5 "ServiceError ''down''"] by simp
qed

section \<open>Fallback to the long cache\<close>

text \<open>
  C4. When the short cache misses and the directory fetch fails, at the
  creation of the client or at the read, the long cache decides: an entry for
  the team, however old, is returned as it is, and without an entry the call
  fails with the error "No numbers found in fallback cache for team T".
  Neither cache is changed. The long cache is that of a server reached from
  \<open>newServer\<close>, whose items never expire.
\<close>

theorem fetch_failure_falls_back:
  assumes "neverExpires (longCache st)"
    and "cacheGet now team (shortCache st) = None"
    and "d = ServiceError e \<or> d = ReadError e"
  shows "(\<forall>it. items (longCache st) team = Some it \<longrightarrow>
            fst (getTeamNumbers d now team st) = Inr (Object it))
       \<and> (items (longCache st) team = None \<longrightarrow>
            fst (getTeamNumbers d now team st) = Inl (NoNumbersInFallback team))
       \<and> shortCache (snd (getTeamNumbers d now team st)) = shortCache st
       \<and> longCache (snd (getTeamNumbers d now team st)) = longCache st"
  using getTeamNumbers_failure[OF assms(2,3)] neverExpires_cacheGet[OF assms(1), of now team]
  by auto

theorem fetch_failure_falls_back_witness:
  "neverExpires (longCache warmServer)
   \<and> cacheGet later ''infra'' (shortCache warmServer) = None
   \<and> cacheGet later ''blue'' (shortCache warmServer) = None
   \<and> fst (getTeamNumbers (ReadError ''timeout'') later ''infra'' warmServer)
        = Inr [''+33333333333'', ''+33666666666'']
   \<and> fst (getTeamNumbers (ServiceError ''no credentials'') later ''blue'' warmServer)
        = Inl (NoNumbersInFallback ''blue'')"
  using fetch_failure_falls_back [OF neverExpires_warmServer short_warm_later,
          of "ReadError ''timeout''" "''timeout''"]
    fetch_failure_falls_back [OF neverExpires_warmServer short_warm_later_blue,
          of "ServiceError ''no credentials''" "''no credentials''"]
    neverExpires_warmServer short_warm_later short_warm_later_blue
    items_long_warm_infra items_long_warm_blue
  by simp

section \<open>Which rows of a snapshot are stored\<close>

text \<open>
  The scan returns at the first row of the requested team, so the rows after
  it are not stored: resolving \<open>red\<close> from the sheet whose first row is
  \<open>red\<close> leaves \<open>infra\<close>, the second row, out of both caches.
\<close>

theorem rows_after_match_not_stored_counterexample:
  "fst (getTeamNumbers (Values sheetA) 0 ''red'' newServer) = Inr [''+33611111111'']
   \<and> cacheGet 0 ''infra'' (shortCache (snd (getTeamNumbers (Values sheetA) 0 ''red'' newServer))) = None
   \<and> cacheGet 0 ''infra'' (longCache (snd (getTeamNumbers (Values sheetA) 0 ''red'' newServer))) = None"
  by (simp add: resolver_defs)

text \<open>
  C1, as amended. After a fetch that succeeds with a non-empty snapshot,
  every row with at least one cell that is not positioned after the first row
  of the requested team (every such row, when no row is of the requested
  team) has its team in both caches at the instant of the call, with the same
  recipients in the short and in the long cache; these are the recipients of
  the row itself unless a later row of the snapshot carries the same team.
\<close>

theorem scanned_rows_in_both_caches:
  assumes "cacheGet now team (shortCache st) = None"
    and "\<forall>r\<in>set pre. take 1 r \<noteq> [team]"
    and "st' = snd (getTeamNumbers (Values (pre @ (k # ns) # post)) now team st)"
  shows "cacheGet now k (shortCache st') = cacheGet now k (longCache st')
       \<and> cacheGet now k (shortCache st') \<noteq> None
       \<and> (k = team \<or> (\<forall>r\<in>set post. take 1 r \<noteq> [k]) \<longrightarrow>
            cacheGet now k (shortCache st') = Some ns)"
proof -
  have "st' = snd (scanRows now team (pre @ (k # ns) # post)
                 (st\<lparr>events := events st @ [SheetsNewService, SheetsValuesGet]\<rparr>))"
    using assms(1,3) by (simp add: getTeamNumbers_fetch_state)
  from scanRows_row_written[OF assms(2) this] show ?thesis by blast
qed

theorem scanned_rows_in_both_caches_witness:
  "cacheGet 0 ''infra'' (shortCache newServer) = None
   \<and> cacheGet 0 ''red'' (shortCache warmServer) = cacheGet 0 ''red'' (longCache warmServer)
   \<and> cacheGet 0 ''red'' (shortCache warmServer) = Some [''+33611111111'']"
proof -
  have miss: "cacheGet 0 ''infra'' (shortCache newServer) = None"
    by (simp add: resolver_defs)
  have reached: "\<forall>r\<in>set []. take 1 r \<noteq> [''infra'']"
    by simp
  have st': "warmServer = snd (getTeamNumbers
      (Values ([] @ (''red'' # [''+33611111111'']) # [[''infra'', ''+33333333333'', ''+33666666666'']]))
      0 ''infra'' newServer)"
    by (simp add: warmServer_def sheetA_def)
  show ?thesis
    using scanned_rows_in_both_caches [OF miss reached st'] miss by auto
qed

section \<open>The empty snapshot\<close>

text \<open>
  An empty snapshot ends the call with the error "Sheet appears to be
  empty", also when the long cache holds an entry for the team: the warm
  server, eleven minutes later, still has \<open>infra\<close> in its long cache and
  does not return it.
\<close>

theorem empty_sheet_no_fallback_counterexample:
  "cacheGet later ''infra'' (shortCache warmServer) = None
   \<and> cacheGet later ''infra'' (longCache warmServer) = Some [''+33333333333'', ''+33666666666'']
   \<and> fst (getTeamNumbers (Values []) later ''infra'' warmServer) = Inl SheetEmpty"
  by (simp add: resolver_defs)

text \<open>
  C2, as amended. When the short cache misses and the fetch succeeds with a
  snapshot of zero rows, the call fails with the error "Sheet appears to be
  empty"; the long cache is not consulted and neither cache changes, the two
  calls to the directory being the only effects.
\<close>

theorem empty_sheet_is_an_error:
  assumes "cacheGet now team (shortCache st) = None"
  shows "getTeamNumbers (Values []) now team st
           = (Inl SheetEmpty, st\<lparr>events := events st @ [SheetsNewService, SheetsValuesGet]\<rparr>)"
  using assms
  by (simp add: getTeamNumbers_def NewSpreadsheetService_def ValuesGetDo_def Let_def)

theorem empty_sheet_is_an_error_witness:
  "cacheGet later ''red'' (shortCache warmServer) = None
   \<and> getTeamNumbers (Values []) later ''red'' warmServer
        = (Inl SheetEmpty, warmServer\<lparr>events := events warmServer @ [SheetsNewService, SheetsValuesGet]\<rparr>)"
proof -
  have miss: "cacheGet later ''red'' (shortCache warmServer) = None"
    by (simp add: resolver_defs)
  show ?thesis using empty_sheet_is_an_error [OF miss] miss by simp
qed

section \<open>A snapshot without the requested team\<close>

text \<open>
  C5. When the fetch succeeds with a non-empty snapshot none of whose rows
  has the requested team as its first cell, the call fails with the error
  "No row found in Sheet for team T". The long cache is not consulted: the
  outcome is the same whatever the long cache holds.
\<close>

theorem absent_team_not_found:
  assumes "cacheGet now team (shortCache st) = None"
    and "rows \<noteq> []"
    and "\<forall>r\<in>set rows. take 1 r \<noteq> [team]"
  shows "fst (getTeamNumbers (Values rows) now team st) = Inl (NoRowInSheet team)
       \<and> fst (getTeamNumbers (Values rows) now team (st\<lparr>longCache := c\<rparr>)) = Inl (NoRowInSheet team)"
proof -
  have "fst (getTeamNumbers (Values rows) now team s) = Inl (NoRowInSheet team)"
    if "cacheGet now team (shortCache s) = None" for s
    using scanRows_no_match[OF assms(3), of now "s\<lparr>events := events s @ [SheetsNewService, SheetsValuesGet]\<rparr>"]
    by (simp add: getTeamNumbers_fetch_fst[OF that assms(2)])
  from this[of st] this[of "st\<lparr>longCache := c\<rparr>"] assms(1) show ?thesis by simp
qed

theorem absent_team_not_found_witness:
  "cacheGet later ''infra'' (shortCache warmServer) = None
   \<and> [[''red'', ''+33611111111'']] \<noteq> []
   \<and> take 1 [''red'', ''+33611111111''] \<noteq> [''infra'']
   \<and> cacheGet later ''infra'' (longCache warmServer) = Some [''+33333333333'', ''+33666666666'']
   \<and> fst (getTeamNumbers (Values [[''red'', ''+33611111111'']]) later ''infra'' warmServer)
        = Inl (NoRowInSheet ''infra'')"
proof -
  have miss: "cacheGet later ''infra'' (shortCache warmServer) = None"
    by (simp add: resolver_defs)
  have rows: "[[''red'', ''+33611111111'']] \<noteq> []" by simp
  have absent: "\<forall>r\<in>set [[''red'', ''+33611111111'']]. take 1 r \<noteq> [''infra'']" by simp
  have stale: "cacheGet later ''infra'' (longCache warmServer) = Some [''+33333333333'', ''+33666666666'']"
    by (simp add: resolver_defs)
  show ?thesis
    using absent_team_not_found [OF miss rows absent] miss stale by simp
qed

section \<open>The first matching row\<close>

text \<open>
  C9. When the fetch succeeds and the snapshot has a row of the requested
  team, the call returns the cells after the first of the first such row, and
  the call (its result and the state it leaves) is that of the snapshot cut
  after this row: the rows after it are stored in neither cache, and a team
  that no row up to the matching one carries keeps the items it had.
\<close>

theorem first_match_wins:
  assumes "cacheGet now team (shortCache st) = None"
    and "\<forall>r\<in>set pre. take 1 r \<noteq> [team]"
  shows "fst (getTeamNumbers (Values (pre @ (team # ns) # post)) now team st) = Inr ns
       \<and> getTeamNumbers (Values (pre @ (team # ns) # post)) now team st
           = getTeamNumbers (Values (pre @ [team # ns])) now team st
       \<and> ((\<forall>r\<in>set (pre @ [team # ns]). take 1 r \<noteq> [k]) \<longrightarrow>
            items (shortCache (snd (getTeamNumbers (Values (pre @ (team # ns) # post)) now team st))) k
              = items (shortCache st) k
          \<and> items (longCache (snd (getTeamNumbers (Values (pre @ (team # ns) # post)) now team st))) k
              = items (longCache st) k)"
proof -
  define s where "s = st\<lparr>events := events st @ [SheetsNewService, SheetsValuesGet]\<rparr>"
  have cut: "scanRows now team (pre @ (team # ns) # post) s' = scanRows now team (pre @ [team # ns]) s'" for s'
    by (simp add: scanRows_append[OF assms(2)] Let_def)
  have res: "fst (scanRows now team (pre @ [team # ns]) s) = Some ns"
    by (simp add: scanRows_append[OF assms(2)] Let_def)
  have g: "getTeamNumbers (Values (pre @ (team # ns) # post)) now team st
             = (case scanRows now team (pre @ [team # ns]) s of
                  (Some numbers, st3) \<Rightarrow> (Inr numbers, st3)
                | (None, st3) \<Rightarrow> (Inl (NoRowInSheet team), st3))"
    using getTeamNumbers_fetch[OF assms(1), of "pre @ (team # ns) # post"] by (simp add: cut s_def)
  have g': "getTeamNumbers (Values (pre @ [team # ns])) now team st
             = (case scanRows now team (pre @ [team # ns]) s of
                  (Some numbers, st3) \<Rightarrow> (Inr numbers, st3)
                | (None, st3) \<Rightarrow> (Inl (NoRowInSheet team), st3))"
    using getTeamNumbers_fetch[OF assms(1), of "pre @ [team # ns]"] by (simp add: s_def)
  have 1: "fst (getTeamNumbers (Values (pre @ (team # ns) # post)) now team st) = Inr ns"
    using res getTeamNumbers_fetch_fst[OF assms(1), of "pre @ (team # ns) # post"]
    by (simp add: cut s_def)
  have 2: "getTeamNumbers (Values (pre @ (team # ns) # post)) now team st
           = getTeamNumbers (Values (pre @ [team # ns])) now team st"
    by (simp add: g g')
  have st3: "snd (getTeamNumbers (Values (pre @ (team # ns) # post)) now team st)
               = snd (scanRows now team (pre @ [team # ns]) s)"
    by (simp add: g split: prod.splits option.splits)
  have 3: "items (shortCache (snd (getTeamNumbers (Values (pre @ (team # ns) # post)) now team st))) k
              = items (shortCache st) k
          \<and> items (longCache (snd (getTeamNumbers (Values (pre @ (team # ns) # post)) now team st))) k
              = items (longCache st) k"
    if "\<forall>r\<in>set (pre @ [team # ns]). take 1 r \<noteq> [k]"
    using scanRows_untouched[OF that, of now team s] by (simp add: st3 s_def)
  from 1 2 3 show ?thesis by blast
qed

theorem first_match_wins_witness:
  "cacheGet 0 ''red'' (shortCache newServer) = None
   \<and> fst (getTeamNumbers (Values sheetA) 0 ''red'' newServer) = Inr [''+33611111111'']
   \<and> getTeamNumbers (Values sheetA) 0 ''red'' newServer
       = getTeamNumbers (Values [[''red'', ''+33611111111'']]) 0 ''red'' newServer
   \<and> items (shortCache (snd (getTeamNumbers (Values sheetA) 0 ''red'' newServer))) ''infra'' = None
   \<and> items (longCache (snd (getTeamNumbers (Values sheetA) 0 ''red'' newServer))) ''infra'' = None"
proof -
  have miss: "cacheGet 0 ''red'' (shortCache newServer) = None"
    by (simp add: resolver_defs)
  have reached: "\<forall>r\<in>set []. take 1 r \<noteq> [''red'']" by simp
  have empty: "items (shortCache newServer) ''infra'' = None" "items (longCache newServer) ''infra'' = None"
    by (simp_all add: resolver_defs)
  show ?thesis
    using first_match_wins [OF miss reached, of "[''+33611111111'']"
        "[[''infra'', ''+33333333333'', ''+33666666666'']]" "''infra''"] miss empty
    by (auto simp: sheetA_def)
qed

section \<open>Rows that are skipped\<close>

text \<open>
  A row whose first cell is the empty string is a row like any other: it is
  stored under the empty key, and returned when the requested team is the
  empty string (the team of an alert without the label \<^verbatim>\<open>team\<close>).
\<close>

theorem empty_team_row_stored_counterexample:
  "fst (getTeamNumbers (Values [['''', ''33611111111'']]) 0 '''' newServer) = Inr [''33611111111'']
   \<and> cacheGet 0 '''' (shortCache (snd (getTeamNumbers (Values [['''', ''33611111111'']]) 0 '''' newServer)))
        = Some [''33611111111'']
   \<and> cacheGet 0 '''' (longCache (snd (getTeamNumbers (Values [['''', ''33611111111'']]) 0 '''' newServer)))
        = Some [''33611111111'']"
  by (simp add: resolver_defs)

text \<open>
  C6, as amended. The rows that are skipped are the rows without any cell:
  the scan of a snapshot is the scan of the snapshot without these rows, and
  taking such a row out of a snapshot that has other rows changes neither the
  result of the call nor the state it leaves. A row whose first cell is the
  empty string is processed like any other row: when it is not positioned
  after the first row of the requested team, the empty key is in both caches
  after the call, with the same recipients in each (those of the row, unless
  a later row also has the empty string as its first cell), and the row's
  recipients are returned when the requested team is the empty string.
\<close>

theorem rows_without_cells_skipped:
  "scanRows now team rows st = scanRows now team (filter (\<lambda>row. row \<noteq> []) rows) st
   \<and> (pre @ post \<noteq> [] \<longrightarrow>
        getTeamNumbers (Values (pre @ [] # post)) now team st
          = getTeamNumbers (Values (pre @ post)) now team st)
   \<and> (cacheGet now team (shortCache st) = None \<and> (\<forall>r\<in>set pre. take 1 r \<noteq> [team]) \<longrightarrow>
        cacheGet now '''' (shortCache (snd (getTeamNumbers (Values (pre @ ('''' # ns) # post)) now team st)))
          = cacheGet now '''' (longCache (snd (getTeamNumbers (Values (pre @ ('''' # ns) # post)) now team st)))
        \<and> cacheGet now '''' (shortCache (snd (getTeamNumbers (Values (pre @ ('''' # ns) # post)) now team st)))
          \<noteq> None
        \<and> (team = '''' \<or> (\<forall>r\<in>set post. take 1 r \<noteq> ['''']) \<longrightarrow>
             cacheGet now '''' (shortCache (snd (getTeamNumbers (Values (pre @ ('''' # ns) # post)) now team st)))
               = Some ns)
        \<and> (team = '''' \<longrightarrow>
             fst (getTeamNumbers (Values (pre @ ('''' # ns) # post)) now team st) = Inr ns))"
proof -
  have 1: "scanRows now team rows st = scanRows now team (filter (\<lambda>row. row \<noteq> []) rows) st"
    by (rule scanRows_filter)
  have 2: "getTeamNumbers (Values (pre @ [] # post)) now team st
          = getTeamNumbers (Values (pre @ post)) now team st"
    if ne: "pre @ post \<noteq> []"
  proof (cases "cacheGet now team (shortCache st)")
    case (Some v)
    then show ?thesis by (simp add: getTeamNumbers_def)
  next
    case None
    have ne': "pre @ [] # post \<noteq> []" by simp
    have "scanRows now team (pre @ [] # post) s = scanRows now team (pre @ post) s" for s
      using scanRows_filter[of now team "pre @ [] # post" s] scanRows_filter[of now team "pre @ post" s]
      by simp
    then show ?thesis
      by (simp only: getTeamNumbers_fetch[OF None ne'] getTeamNumbers_fetch[OF None ne])
  qed
  define S where "S = snd (getTeamNumbers (Values (pre @ ('''' # ns) # post)) now team st)"
  have 3: "cacheGet now '''' (shortCache S) = cacheGet now '''' (longCache S)
        \<and> cacheGet now '''' (shortCache S) \<noteq> None
        \<and> (team = '''' \<or> (\<forall>r\<in>set post. take 1 r \<noteq> ['''']) \<longrightarrow>
             cacheGet now '''' (shortCache S) = Some ns)
        \<and> (team = '''' \<longrightarrow>
             fst (getTeamNumbers (Values (pre @ ('''' # ns) # post)) now team st) = Inr ns)"
    if miss: "cacheGet now team (shortCache st) = None"
      and reached: "\<forall>r\<in>set pre. take 1 r \<noteq> [team]"
  proof -
    define s where "s = st\<lparr>events := events st @ [SheetsNewService, SheetsValuesGet]\<rparr>"
    have "S = snd (scanRows now team (pre @ ('''' # ns) # post) s)"
      using miss by (simp add: S_def getTeamNumbers_fetch_state s_def)
    note w = scanRows_row_written[OF reached this]
    have "fst (getTeamNumbers (Values (pre @ ('''' # ns) # post)) now team st) = Inr ns"
      if "team = ''''"
      using getTeamNumbers_fetch_fst[OF miss, of "pre @ ('''' # ns) # post"] that reached
      by (simp add: scanRows_append Let_def)
    with w show ?thesis by auto
  qed
  from 1 2 3 show ?thesis unfolding S_def by blast
qed

theorem rows_without_cells_skipped_witness:
  "[[''red'', ''+33611111111'']] @ [[''infra'', ''+33333333333'']] \<noteq> []
   \<and> getTeamNumbers (Values [[''red'', ''+33611111111''], [], [''infra'', ''+33333333333'']]) 0 ''infra'' newServer
       = getTeamNumbers (Values [[''red'', ''+33611111111''], [''infra'', ''+33333333333'']]) 0 ''infra'' newServer
   \<and> fst (getTeamNumbers (Values [[''red'', ''+33611111111''], [], [''infra'', ''+33333333333'']]) 0 ''infra'' newServer)
       = Inr [''+33333333333'']
   \<and> cacheGet 0 '''' (shortCache newServer) = None
   \<and> take 1 [''red'', ''+33611111111''] \<noteq> ['''']
   \<and> fst (getTeamNumbers (Values [[''red'', ''+33611111111''], ['''', ''33622222222'']]) 0 '''' newServer)
       = Inr [''33622222222'']
   \<and> cacheGet 0 '''' (longCache (snd (getTeamNumbers
         (Values [[''red'', ''+33611111111''], ['''', ''33622222222'']]) 0 '''' newServer)))
       = Some [''33622222222'']"
proof -
  have ne: "[[''red'', ''+33611111111'']] @ [[''infra'', ''+33333333333'']] \<noteq> []" by simp
  have r: "fst (getTeamNumbers (Values [[''red'', ''+33611111111''], [''infra'', ''+33333333333'']]) 0 ''infra'' newServer)
       = Inr [''+33333333333'']"
    by (simp add: resolver_defs)
  have miss: "cacheGet 0 '''' (shortCache newServer) = None"
    by (simp add: resolver_defs)
  have reached: "\<forall>r\<in>set [[''red'', ''+33611111111'']]. take 1 r \<noteq> ['''']" by simp
  note a = rows_without_cells_skipped [of 0 "''infra''" "[]" newServer "[[''red'', ''+33611111111'']]"
        "[[''infra'', ''+33333333333'']]"]
  note b = rows_without_cells_skipped [of 0 "''''" "[]" newServer "[[''red'', ''+33611111111'']]"
        "[]" "[''33622222222'']", THEN conjunct2, THEN conjunct2, rule_format, OF conjI [OF miss reached]]
  show ?thesis
    using a b ne r miss by auto
qed

section \<open>Rows of one column\<close>

text \<open>
  A row of one column that comes after the first row of the requested team
  is not stored: resolving \<open>infra\<close> leaves \<open>ops\<close> out of both caches.
\<close>

theorem one_column_row_after_match_counterexample:
  "fst (getTeamNumbers (Values [[''infra'', ''33611111111''], [''ops'']]) 0 ''infra'' newServer)
     = Inr [''33611111111'']
   \<and> cacheGet 0 ''ops'' (shortCache (snd (getTeamNumbers (Values [[''infra'', ''33611111111''], [''ops'']]) 0 ''infra'' newServer)))
        = None
   \<and> cacheGet 0 ''ops'' (longCache (snd (getTeamNumbers (Values [[''infra'', ''33611111111''], [''ops'']]) 0 ''infra'' newServer)))
        = None"
  by (simp add: resolver_defs)

text \<open>
  C7, as amended. A row of exactly one column that is not positioned after
  the first row of the requested team is stored in both caches with the empty
  list of recipients, which is what both caches hold for its team after the
  call unless a later row of the snapshot carries the same team; and when its
  team is the requested one, the call returns the empty list of recipients,
  not an error.
\<close>

theorem one_column_row_empty_recipients:
  assumes "cacheGet now team (shortCache st) = None"
    and "\<forall>r\<in>set pre. take 1 r \<noteq> [team]"
    and "st' = snd (getTeamNumbers (Values (pre @ [k] # post)) now team st)"
  shows "(k = team \<or> (\<forall>r\<in>set post. take 1 r \<noteq> [k]) \<longrightarrow>
            cacheGet now k (shortCache st') = Some [] \<and> cacheGet now k (longCache st') = Some [])
       \<and> (k = team \<longrightarrow> fst (getTeamNumbers (Values (pre @ [k] # post)) now team st) = Inr [])"
proof -
  define s where "s = st\<lparr>events := events st @ [SheetsNewService, SheetsValuesGet]\<rparr>"
  have "st' = snd (scanRows now team (pre @ [k] # post) s)"
    using assms(1,3) by (simp add: getTeamNumbers_fetch_state s_def)
  note w = scanRows_row_written[OF assms(2) this]
  have "fst (getTeamNumbers (Values (pre @ [k] # post)) now team st) = Inr []" if "k = team"
    using getTeamNumbers_fetch_fst[OF assms(1), of "pre @ [k] # post"] that
    by (simp add: scanRows_append[OF assms(2)] Let_def)
  with w show ?thesis by auto
qed

theorem one_column_row_empty_recipients_witness:
  "cacheGet 0 ''ops'' (shortCache newServer) = None
   \<and> take 1 [''infra'', ''33611111111''] \<noteq> [''ops'']
   \<and> cacheGet 0 ''ops'' (shortCache (snd (getTeamNumbers (Values [[''infra'', ''33611111111''], [''ops'']]) 0 ''ops'' newServer))) = Some []
   \<and> cacheGet 0 ''ops'' (longCache (snd (getTeamNumbers (Values [[''infra'', ''33611111111''], [''ops'']]) 0 ''ops'' newServer))) = Some []
   \<and> fst (getTeamNumbers (Values [[''infra'', ''33611111111''], [''ops'']]) 0 ''ops'' newServer) = Inr []"
proof -
  have miss: "cacheGet 0 ''ops'' (shortCache newServer) = None"
    by (simp add: resolver_defs)
  have reached: "\<forall>r\<in>set [[''infra'', ''33611111111'']]. take 1 r \<noteq> [''ops'']" by simp
  have st': "snd (getTeamNumbers (Values [[''infra'', ''33611111111''], [''ops'']]) 0 ''ops'' newServer)
      = snd (getTeamNumbers (Values ([[''infra'', ''33611111111'']] @ [''ops''] # [])) 0 ''ops'' newServer)"
    by simp
  show ?thesis
    using one_column_row_empty_recipients [OF miss reached st'] miss reached by simp
qed

section \<open>A malformed label\<close>

text \<open>
  A malformed label does not end the request, but the resolution of the team
  is not the only thing that can end it afterwards: with a provider that
  refuses every message, the team of the alert is resolved and the request is
  answered with status 500 by the first post.
\<close>

theorem post_failure_ends_request_counterexample:
  "index (Labels alertMalformed) ''phone_numbers'' = ''abc''
   \<and> \<not> matches phonesPattern ''abc''
   \<and> fst (getTeamNumbers (directoryAt backendsRefuse 0) (clockAt backendsRefuse 0) ''infra''
          (logMessage ''Cannot use label-provided phone numbers abc: Wrong comma-separated phone numbers syntax''
             newServer))
        = Inr [''+33333333333'', ''+33666666666'']
   \<and> fst (handleAlert backendsRefuse 0 alertMalformed newServer) = Some (500, ''refused'')
   \<and> fst (webhook backendsRefuse ''POST'' (Inr [alertMalformed, alertLabel]) newServer)
        = (500, ''refused'')"
proof -
  have l: "index (Labels alertMalformed) ''phone_numbers'' = ''abc''"
    by (simp add: alertMalformed_def index_def)
  have bad: "\<not> matches phonesPattern ''abc''"
    by (simp add: phonesPattern_def phone_def digit_def Repeat_def exactly_numeral atMost_numeral)
  have g: "fst (getTeamNumbers (directoryAt backendsRefuse 0) (clockAt backendsRefuse 0) ''infra''
          (logMessage ''Cannot use label-provided phone numbers abc: Wrong comma-separated phone numbers syntax''
             newServer))
        = Inr [''+33333333333'', ''+33666666666'']"
    by (simp add: backendsRefuse_def backendsA_def resolver_defs)
  have h: "fst (handleAlert backendsRefuse 0 alertMalformed newServer) = Some (500, ''refused'')"
    by (simp add: backendsRefuse_def twilioRefuse_def webhook_defs resolver_defs)
  then have w: "fst (webhook backendsRefuse ''POST'' (Inr [alertMalformed, alertLabel]) newServer)
        = (500, ''refused'')"
    by (cases "handleAlert backendsRefuse 0 alertMalformed newServer") (simp add: webhook_def)
  show ?thesis by (rule conjI [OF l conjI [OF bad conjI [OF g conjI [OF h w]]]])
qed

text \<open>
  C8, as amended. For an alert whose label \<^verbatim>\<open>phone_numbers\<close> is not
  empty and does not match the pattern, the parse failure is logged ("Cannot
  use label-provided phone numbers ...: Wrong comma-separated phone numbers
  syntax") and the team of the alert is resolved instead of the request being
  ended. The determination of the recipients ends the request exactly when
  that resolution fails. The alert as a whole ends the request, with status
  500, exactly when that resolution fails or a post to one of the resolved
  recipients fails: after a failed resolution nothing is posted; when every
  post succeeds all recipients are posted to and the loop goes on with the
  next alert; otherwise the posts stop at the first one that fails, whose
  error is logged and answered.
\<close>

theorem malformed_label_falls_through:
  assumes "index (Labels a) ''phone_numbers'' \<noteq> []"
    and "\<not> matches phonesPattern (index (Labels a) ''phone_numbers'')"
    and "st1 = logMessage (''Cannot use label-provided phone numbers ''
                  @ index (Labels a) ''phone_numbers''
                  @ '': Wrong comma-separated phone numbers syntax'') st"
    and "d = directoryAt b i" and "now = clockAt b i"
    and "team = index (Labels a) ''team''"
    and "message = Status a @ '': '' @ index (Annotations a) ''summary''"
  shows "determineRecipients d now a st =
           (case getTeamNumbers d now team st1 of
              (Inl e, st2) \<Rightarrow> (Inl (500, errorText e), logMessage (errorText e) st2)
            | (Inr rs, st2) \<Rightarrow> (Inr rs, st2))
       \<and> ((\<exists>resp. fst (determineRecipients d now a st) = Inl resp) \<longleftrightarrow>
            (\<exists>e. fst (getTeamNumbers d now team st1) = Inl e))
       \<and> handleAlert b i a st =
           (case getTeamNumbers d now team st1 of
              (Inl e, st2) \<Rightarrow> (Some (500, errorText e), logMessage (errorText e) st2)
            | (Inr rs, st2) \<Rightarrow> sendAll (twilio b) (twilioApi b) rs message st2)
       \<and> (\<forall>e st2. getTeamNumbers d now team st1 = (Inl e, st2) \<longrightarrow>
             handleAlert b i a st = (Some (500, errorText e), logMessage (errorText e) st2))
       \<and> (\<forall>rs st2. getTeamNumbers d now team st1 = (Inr rs, st2)
               \<and> (\<forall>r\<in>set rs. fst (sendSms (twilio b) (twilioApi b) (''+'' @ r) message st2) = None) \<longrightarrow>
             handleAlert b i a st =
               (None, st2\<lparr>events := events st2
                   @ map (\<lambda>r. PostMessage (''+'' @ r) (FromNumber (twilio b)) message) rs\<rparr>))
       \<and> (\<forall>pre r post e st2. getTeamNumbers d now team st1 = (Inr (pre @ r # post), st2)
               \<and> (\<forall>q\<in>set pre. fst (sendSms (twilio b) (twilioApi b) (''+'' @ q) message st2) = None)
               \<and> fst (sendSms (twilio b) (twilioApi b) (''+'' @ r) message st2) = Some e \<longrightarrow>
             handleAlert b i a st =
               (Some (500, errorText e),
                st2\<lparr>events := events st2
                   @ map (\<lambda>r. PostMessage (''+'' @ r) (FromNumber (twilio b)) message) (pre @ [r])
                   @ [LogMessage (errorText e)]\<rparr>))
       \<and> (fst (handleAlert b i a st) \<noteq> None \<longleftrightarrow>
            (\<exists>e. fst (getTeamNumbers d now team st1) = Inl e)
            \<or> (\<exists>rs. fst (getTeamNumbers d now team st1) = Inr rs
                 \<and> (\<exists>r\<in>set rs. fst (sendSms (twilio b) (twilioApi b) (''+'' @ r) message st) \<noteq> None)))
       \<and> (fst (handleAlert b i a st) = None \<longrightarrow>
            alertsLoop b i (a # rest) st = alertsLoop b (Suc i) rest (snd (handleAlert b i a st)))"
proof -
  have eq: "determineRecipients d now a st =
           (case getTeamNumbers d now team st1 of
              (Inl e, st2) \<Rightarrow> (Inl (500, errorText e), logMessage (errorText e) st2)
            | (Inr rs, st2) \<Rightarrow> (Inr rs, st2))"
    using assms(1-3,6) by (simp add: determineRecipients_def getPhonesFromLabel_def)
  obtain res s2 where t: "getTeamNumbers d now team st1 = (res, s2)"
    by (cases "getTeamNumbers d now team st1")
  have iff: "(\<exists>resp. fst (determineRecipients d now a st) = Inl resp) \<longleftrightarrow>
            (\<exists>e. fst (getTeamNumbers d now team st1) = Inl e)"
    unfolding eq t by (cases res) simp_all
  have "handleAlert b i a st =
          (case determineRecipients d now a st of
             (Inl resp, s) \<Rightarrow> (Some resp, s)
           | (Inr recipients, s) \<Rightarrow> sendAll (twilio b) (twilioApi b) recipients message s)"
    using assms(4,5,7) by (simp add: handleAlert_def split: prod.splits sum.splits)
  then have h: "handleAlert b i a st =
           (case getTeamNumbers d now team st1 of
              (Inl e, st2) \<Rightarrow> (Some (500, errorText e), logMessage (errorText e) st2)
            | (Inr rs, st2) \<Rightarrow> sendAll (twilio b) (twilioApi b) rs message st2)"
    unfolding eq t by (cases res) simp_all
  have c4: "\<forall>e st2. getTeamNumbers d now team st1 = (Inl e, st2) \<longrightarrow>
             handleAlert b i a st = (Some (500, errorText e), logMessage (errorText e) st2)"
    by (simp add: h)
  have c5: "\<forall>rs st2. getTeamNumbers d now team st1 = (Inr rs, st2)
               \<and> (\<forall>r\<in>set rs. fst (sendSms (twilio b) (twilioApi b) (''+'' @ r) message st2) = None) \<longrightarrow>
             handleAlert b i a st =
               (None, st2\<lparr>events := events st2
                   @ map (\<lambda>r. PostMessage (''+'' @ r) (FromNumber (twilio b)) message) rs\<rparr>)"
  proof (intro allI impI, elim conjE)
    fix rs st2
    assume g: "getTeamNumbers d now team st1 = (Inr rs, st2)"
      and ok: "\<forall>r\<in>set rs. fst (sendSms (twilio b) (twilioApi b) (''+'' @ r) message st2) = None"
    from sendAll_all_ok[OF ok] g
    show "handleAlert b i a st =
               (None, st2\<lparr>events := events st2
                   @ map (\<lambda>r. PostMessage (''+'' @ r) (FromNumber (twilio b)) message) rs\<rparr>)"
      by (simp add: h)
  qed
  have c6: "\<forall>pre r post e st2. getTeamNumbers d now team st1 = (Inr (pre @ r # post), st2)
               \<and> (\<forall>q\<in>set pre. fst (sendSms (twilio b) (twilioApi b) (''+'' @ q) message st2) = None)
               \<and> fst (sendSms (twilio b) (twilioApi b) (''+'' @ r) message st2) = Some e \<longrightarrow>
             handleAlert b i a st =
               (Some (500, errorText e),
                st2\<lparr>events := events st2
                   @ map (\<lambda>r. PostMessage (''+'' @ r) (FromNumber (twilio b)) message) (pre @ [r])
                   @ [LogMessage (errorText e)]\<rparr>)"
  proof (intro allI impI, elim conjE)
    fix pre r post e st2
    assume g: "getTeamNumbers d now team st1 = (Inr (pre @ r # post), st2)"
      and ok: "\<forall>q\<in>set pre. fst (sendSms (twilio b) (twilioApi b) (''+'' @ q) message st2) = None"
      and ko: "fst (sendSms (twilio b) (twilioApi b) (''+'' @ r) message st2) = Some e"
    from sendAll_first_failure[OF ok ko, of post] g
    show "handleAlert b i a st =
               (Some (500, errorText e),
                st2\<lparr>events := events st2
                   @ map (\<lambda>r. PostMessage (''+'' @ r) (FromNumber (twilio b)) message) (pre @ [r])
                   @ [LogMessage (errorText e)]\<rparr>)"
      by (simp add: h)
  qed
  have c7: "fst (handleAlert b i a st) \<noteq> None \<longleftrightarrow>
            (\<exists>e. fst (getTeamNumbers d now team st1) = Inl e)
            \<or> (\<exists>rs. fst (getTeamNumbers d now team st1) = Inr rs
                 \<and> (\<exists>r\<in>set rs. fst (sendSms (twilio b) (twilioApi b) (''+'' @ r) message st) \<noteq> None))"
  proof (cases res)
    case (Inl e)
    with t show ?thesis by (simp add: h)
  next
    case (Inr rs)
    have "(\<exists>r\<in>set rs. fst (sendSms (twilio b) (twilioApi b) (''+'' @ r) message s2) \<noteq> None)
        \<longleftrightarrow> (\<exists>r\<in>set rs. fst (sendSms (twilio b) (twilioApi b) (''+'' @ r) message st) \<noteq> None)"
      using sendSms_fst_state[of "twilio b" "twilioApi b" _ message s2 st] by simp
    with Inr t sendAll_abort_iff[of "twilio b" "twilioApi b" rs message s2]
    show ?thesis by (simp add: h)
  qed
  have c8: "fst (handleAlert b i a st) = None \<longrightarrow>
            alertsLoop b i (a # rest) st = alertsLoop b (Suc i) rest (snd (handleAlert b i a st))"
    by (cases "handleAlert b i a st") simp
  show ?thesis
    by (rule conjI [OF eq conjI [OF iff conjI [OF h conjI [OF c4 conjI [OF c5 conjI [OF c6
          conjI [OF c7 c8]]]]]]])
qed

theorem malformed_label_falls_through_witness:
  "index (Labels alertMalformed) ''phone_numbers'' \<noteq> []
   \<and> \<not> matches phonesPattern (index (Labels alertMalformed) ''phone_numbers'')
   \<and> fst (determineRecipients (Values sheetA) 0 alertMalformed newServer)
        = Inr [''+33333333333'', ''+33666666666'']
   \<and> fst (handleAlert backendsA 0 alertMalformed newServer) = None
   \<and> events (snd (handleAlert backendsA 0 alertMalformed newServer))
        = [LogMessage ''Cannot use label-provided phone numbers abc: Wrong comma-separated phone numbers syntax'',
           SheetsNewService, SheetsValuesGet,
           PostMessage ''++33333333333'' ''+15005550006'' ''firing: disk full'',
           PostMessage ''++33666666666'' ''+15005550006'' ''firing: disk full'']"
proof -
  have l: "index (Labels alertMalformed) ''phone_numbers'' = ''abc''"
    by (simp add: alertMalformed_def index_def)
  have t: "''infra'' = index (Labels alertMalformed) ''team''"
    by (simp add: alertMalformed_def index_def)
  have m: "''firing: disk full''
      = Status alertMalformed @ '': '' @ index (Annotations alertMalformed) ''summary''"
    by (simp add: alertMalformed_def index_def)
  have ne: "index (Labels alertMalformed) ''phone_numbers'' \<noteq> []"
    by (simp add: l)
  have bad: "\<not> matches phonesPattern (index (Labels alertMalformed) ''phone_numbers'')"
    by (simp add: l phonesPattern_def phone_def digit_def Repeat_def exactly_numeral atMost_numeral)
  define msg where
    "msg = ''Cannot use label-provided phone numbers abc: Wrong comma-separated phone numbers syntax''"
  define s1 where "s1 = snd (getTeamNumbers (Values sheetA) 0 ''infra'' (logMessage msg newServer))"
  have g: "getTeamNumbers (Values sheetA) 0 ''infra'' (logMessage msg newServer)
             = (Inr [''+33333333333'', ''+33666666666''], s1)"
    by (simp add: s1_def resolver_defs)
  have ev: "events s1 = [LogMessage msg, SheetsNewService, SheetsValuesGet]"
    by (simp add: s1_def resolver_defs)
  have st1: "logMessage msg newServer
      = logMessage (''Cannot use label-provided phone numbers ''
          @ index (Labels alertMalformed) ''phone_numbers''
          @ '': Wrong comma-separated phone numbers syntax'') newServer"
    by (simp add: l msg_def)
  have d: "Values sheetA = directoryAt backendsA 0" and c: "0 = clockAt backendsA 0"
    by (simp_all add: backendsA_def)
  have ok: "\<forall>r\<in>set [''+33333333333'', ''+33666666666''].
      fst (sendSms (twilio backendsA) (twilioApi backendsA) (''+'' @ r) ''firing: disk full'' s1) = None"
    by (simp add: sendSms_def backendsA_def twilioOk_def)
  note th = malformed_label_falls_through [OF ne bad st1 d c t m]
  have dr: "determineRecipients (Values sheetA) 0 alertMalformed newServer
          = (Inr [''+33333333333'', ''+33666666666''], s1)"
    using th [THEN conjunct1] by (simp add: g)
  have ha: "handleAlert backendsA 0 alertMalformed newServer =
      (None, s1\<lparr>events := events s1
          @ map (\<lambda>r. PostMessage (''+'' @ r) (FromNumber (twilio backendsA)) ''firing: disk full'')
              [''+33333333333'', ''+33666666666'']\<rparr>)"
    using th [THEN conjunct2, THEN conjunct2, THEN conjunct2, THEN conjunct2, THEN conjunct1,
        rule_format, OF conjI [OF g ok]] .
  show ?thesis using ne bad dr ha ev by (simp add: msg_def backendsA_def)
qed

section \<open>The recipient handed to the SMS provider\<close>



text \<open>
  The numbers of the example sheet begin with \<open>+\<close>; resolved from the
  directory, they are posted with a doubled prefix.
\<close>

lemma doubled_plus_example:
  "postedTo (events (snd (handleAlert backendsA 0 alertTeam newServer)))
     = [''++33333333333'', ''++33666666666'']"
  by (simp add: webhook_defs resolver_defs)

end
